theory Spec2Isabelle
  imports Complex_Main "HOL-Library.AList"
begin

section \<open>The MCP client: data model\<close>

text \<open>
  The interfaces \<^verbatim>\<open>MCPTool\<close>, \<^verbatim>\<open>MCPToolCall\<close>, \<^verbatim>\<open>MCPToolResult\<close> and
  \<^verbatim>\<open>MCPServerInfo\<close> of the MCP client become records. Several of them have fields called
  \<^verbatim>\<open>id\<close> and \<^verbatim>\<open>name\<close>, so every field carries a prefix naming its interface
  (\<open>call_id\<close> is \<^verbatim>\<open>MCPToolCall.id\<close>, and so on). An optional field is an \<open>option\<close>.
  A \<^verbatim>\<open>ChildProcess\<close> is represented by a process number.
\<close>

record ToolParameters =
  param_type :: string
  param_properties :: "(string \<times> string) list"
  param_required :: "string list option"

record MCPTool =
  tool_name :: string
  tool_description :: string
  tool_parameters :: ToolParameters

record MCPToolCall =
  call_id :: string
  call_name :: string
  call_arguments :: string

record MCPToolResult =
  res_id :: string
  res_result :: string
  res_error :: "string option"

type_synonym ChildProcess = nat

record MCPServerInfo =
  srv_id :: string
  srv_url :: string
  srv_process :: "ChildProcess option"

text \<open>
  The class \<^verbatim>\<open>MCPClient\<close>. Both \<^verbatim>\<open>clients\<close> and \<^verbatim>\<open>mcpServers\<close> are JavaScript
  \<^verbatim>\<open>Map\<close>s, which iterate in insertion order: they are association lists, written with
  \<^const>\<open>AList.update\<close> (\<^verbatim>\<open>Map.set\<close>: replace in place, or append), \<^const>\<open>AList.delete\<close>
  (\<^verbatim>\<open>Map.delete\<close>) and \<^const>\<open>map_of\<close> (\<^verbatim>\<open>Map.get\<close>). An axios instance is
  determined by the \<^verbatim>\<open>baseURL\<close> it was created with, so \<^verbatim>\<open>clients\<close> maps a server name to
  that URL.
\<close>

record MCPClient =
  clients :: "(string \<times> string) list"
  enabled :: bool
  tools :: "MCPTool list"
  mcpServers :: "(string \<times> MCPServerInfo) list"

text \<open>
  The HTTP transport is a parameter of the model. \<^verbatim>\<open>GET /tools\<close> on a base URL either
  yields the server's tool list or throws (\<open>None\<close>); \<^verbatim>\<open>POST /execute\<close> either yields the
  response body (\<open>Inr\<close>) or throws an error with a message (\<open>Inl\<close>).
\<close>

type_synonym tools_transport = "string \<Rightarrow> MCPTool list option"
type_synonym execute_transport = "string \<Rightarrow> MCPToolCall \<Rightarrow> string + MCPToolResult"

section \<open>Invocation: \<^verbatim>\<open>executeToolCall\<close>\<close>

text \<open>
  \<^verbatim>\<open>String.prototype.split(separator, limit)\<close> cuts the string at every occurrence of the
  separator and then keeps the first \<^verbatim>\<open>limit\<close> pieces; what follows them is dropped.
\<close>

fun split_sep :: "char \<Rightarrow> string \<Rightarrow> string list" where
  "split_sep c [] = [[]]"
| "split_sep c (x # xs) =
     (if x = c then [] # split_sep c xs
      else (case split_sep c xs of [] \<Rightarrow> [[x]] | p # ps \<Rightarrow> (x # p) # ps))"

definition js_split :: "char \<Rightarrow> nat \<Rightarrow> string \<Rightarrow> string list" where
  "js_split c n s = take n (split_sep c s)"

text \<open>
  Array destructuring \<^verbatim>\<open>const [a, b] = xs\<close> binds a missing element to \<^verbatim>\<open>undefined\<close>;
  \<^verbatim>\<open>!a\<close> holds of \<^verbatim>\<open>undefined\<close> and of the empty string.
\<close>

definition element :: "'a list \<Rightarrow> nat \<Rightarrow> 'a option" where
  "element xs i = (if i < length xs then Some (xs ! i) else None)"

definition falsy :: "string option \<Rightarrow> bool" where
  "falsy v = (case v of None \<Rightarrow> True | Some s \<Rightarrow> s = [])"

definition failure :: "string \<Rightarrow> string \<Rightarrow> MCPToolResult" where
  "failure i msg = \<lparr>res_id = i, res_result = [], res_error = Some msg\<rparr>"

definition disabled_message :: string where
  "disabled_message = ''MCP client is disabled or no servers are running''"

definition invalid_name_message :: "string \<Rightarrow> string" where
  "invalid_name_message n =
     ''Invalid tool name format: '' @ n @ ''. Expected format: server.toolName''"

definition not_found_message :: "string \<Rightarrow> string" where
  "not_found_message s = ''MCP server not found: '' @ s"

definition transport_message :: "string \<Rightarrow> string" where
  "transport_message m = ''Error executing MCP tool: '' @ m"

text \<open>
  \<^verbatim>\<open>executeToolCall\<close> returns the result together with the list of requests it posted
  (base URL and body), so that the number of network calls can be read off. The call runs
  on the state of the client at the moment it starts; what happens to the client while the
  request is awaited plays no part in its result.
\<close>

definition executeToolCall ::
  "MCPClient \<Rightarrow> execute_transport \<Rightarrow> MCPToolCall \<Rightarrow> MCPToolResult \<times> (string \<times> MCPToolCall) list"
where
  "executeToolCall st post toolCall =
     (if \<not> enabled st \<or> length (mcpServers st) = 0
      then (failure (call_id toolCall) disabled_message, [])
      else
        let parts = js_split CHR ''.'' 2 (call_name toolCall);
            serverName = element parts 0;
            toolName = element parts 1
        in if falsy serverName \<or> falsy toolName
           then (failure (call_id toolCall) (invalid_name_message (call_name toolCall)), [])
           else
             (case map_of (clients st) (the serverName) of
                None \<Rightarrow> (failure (call_id toolCall) (not_found_message (the serverName)), [])
              | Some client \<Rightarrow>
                  let modifiedToolCall =
                        \<lparr>call_id = call_id toolCall, call_name = the toolName,
                         call_arguments = call_arguments toolCall\<rparr>
                  in (case post client modifiedToolCall of
                        Inr data \<Rightarrow> (data, [(client, modifiedToolCall)])
                      | Inl errorMessage \<Rightarrow>
                          (failure (call_id toolCall) (transport_message errorMessage),
                           [(client, modifiedToolCall)]))))"

text \<open>
  The parse the specification describes: cut the qualified name at its first separator;
  the name is malformed when there is no separator or a component is empty.
\<close>

definition spec_parse :: "string \<Rightarrow> (string \<times> string) option" where
  "spec_parse n =
     (if CHR ''.'' \<in> set n
      then Some (takeWhile (\<lambda>c. c \<noteq> CHR ''.'') n, tl (dropWhile (\<lambda>c. c \<noteq> CHR ''.'') n))
      else None)"

definition spec_malformed :: "string \<Rightarrow> bool" where
  "spec_malformed n =
     (case spec_parse n of None \<Rightarrow> True | Some (s, l) \<Rightarrow> s = [] \<or> l = [])"

section \<open>Launching servers: \<^verbatim>\<open>startServers\<close>\<close>

text \<open>
  \<^verbatim>\<open>port.toString()\<close>: the decimal digits of a natural number.
\<close>

definition digit_char :: "nat \<Rightarrow> char" where
  "digit_char d = char_of (48 + d)"

fun toString :: "nat \<Rightarrow> string" where
  "toString n =
     (if n < 10 then [digit_char n] else toString (n div 10) @ [digit_char (n mod 10)])"

declare toString.simps [simp del]

record ServerConfig =
  cfg_command :: string
  cfg_args :: "string list"

text \<open>
  One iteration of the launch loop asks its environment for three things. The first is the
  value of \<^verbatim>\<open>Math.random() * 1000\<close>: both the draw and the product are IEEE doubles, so the
  model takes the double that the product evaluates to, a number \<open>d\<close> with \<open>0 \<le> d < 1000\<close>
  (lemma \<open>double_product_in_range\<close> below).
  \<^verbatim>\<open>Math.floor\<close> of a double and the addition of 8000 are exact. The second is the value of
  \<^verbatim>\<open>randomUUID()\<close>, and the third the child process that \<^verbatim>\<open>spawn\<close> returns for a command and
  its arguments (\<open>None\<close> when \<^verbatim>\<open>spawn\<close> throws, which the loop body catches and logs). The
  loop waits two seconds after each launch; the model runs the iterations one after the
  other, with no other event of the client in between.
\<close>

record LaunchEnv =
  env_random1000 :: real
  env_uuid :: string
  env_spawn :: "string \<Rightarrow> string list \<Rightarrow> ChildProcess option"

definition randomPort :: "real \<Rightarrow> nat" where
  "randomPort random1000 = 8000 + nat \<lfloor>random1000\<rfloor>"

definition serverUrl :: "nat \<Rightarrow> string" where
  "serverUrl port = ''http://localhost:'' @ toString port"

definition spawnArgs :: "ServerConfig \<Rightarrow> nat \<Rightarrow> string list" where
  "spawnArgs serverConfig port = cfg_args serverConfig @ [''--port'', toString port]"

definition launch :: "string \<times> ServerConfig \<Rightarrow> LaunchEnv \<Rightarrow> MCPClient \<Rightarrow> MCPClient" where
  "launch entry env st =
     (case entry of (name, serverConfig) \<Rightarrow>
        let port = randomPort (env_random1000 env);
            url = serverUrl port;
            ident = env_uuid env
        in (case env_spawn env (cfg_command serverConfig) (spawnArgs serverConfig port) of
              None \<Rightarrow> st
            | Some process \<Rightarrow>
                st\<lparr>mcpServers :=
                     AList.update name
                       \<lparr>srv_id = ident, srv_url = url, srv_process = Some process\<rparr>
                       (mcpServers st),
                   clients := AList.update name url (clients st)\<rparr>))"

text \<open>
  The \<^verbatim>\<open>spawn\<close> call that the launch of a configured server makes, and the launches of a
  configuration whose \<^verbatim>\<open>spawn\<close> call does not throw: these are the servers that enter the
  registry.
\<close>

definition spawned :: "(string \<times> ServerConfig) \<times> LaunchEnv \<Rightarrow> ChildProcess option" where
  "spawned l =
     (case l of ((name, serverConfig), env) \<Rightarrow>
        env_spawn env (cfg_command serverConfig)
          (spawnArgs serverConfig (randomPort (env_random1000 env))))"

definition launched ::
  "((string \<times> ServerConfig) \<times> LaunchEnv) list \<Rightarrow> ((string \<times> ServerConfig) \<times> LaunchEnv) list"
where
  "launched launches = filter (\<lambda>l. spawned l \<noteq> None) launches"

text \<open>
  The handler registered with \<^verbatim>\<open>process.on("exit", ...)\<close>.
\<close>

definition onExit :: "string \<Rightarrow> MCPClient \<Rightarrow> MCPClient" where
  "onExit name st = st\<lparr>mcpServers := AList.delete name (mcpServers st)\<rparr>"

section \<open>Persistence: \<^verbatim>\<open>saveServerState\<close> and \<^verbatim>\<open>loadServerState\<close>\<close>

text \<open>
  The state file either does not exist, or cannot be read or parsed (reading it throws), or
  holds the JSON text of an object whose own entries map a server name to an \<^verbatim>\<open>id\<close> and a
  \<^verbatim>\<open>url\<close>. \<^verbatim>\<open>JSON.stringify\<close> followed by \<^verbatim>\<open>JSON.parse\<close> gives such an object back, so
  the file is represented by the entries themselves, in the order in which
  \<^verbatim>\<open>Object.entries\<close> enumerates the parsed object.
\<close>

datatype StateFile = Missing | Unreadable | Stored "(string \<times> string \<times> string) list"

text \<open>
  The plain object \<^verbatim>\<open>state\<close> is the list of its own entries in the order in which
  \<^verbatim>\<open>JSON.stringify\<close> and \<^verbatim>\<open>Object.entries\<close> enumerate them: first the keys that are array
  indices (the decimal numerals of the numbers up to \<open>2\<^sup>3\<^sup>2 - 2\<close>, without leading zeros) in
  ascending numeric order, then every other key in the order of its first assignment.
\<close>

definition is_digit :: "char \<Rightarrow> bool" where
  "is_digit c = (c \<in> set ''0123456789'')"

definition digits_value :: "string \<Rightarrow> nat" where
  "digits_value k = fold (\<lambda>c n. 10 * n + (of_char c - 48)) k 0"

definition array_index :: "string \<Rightarrow> nat option" where
  "array_index k =
     (if k \<noteq> [] \<and> list_all is_digit k \<and> (k = ''0'' \<or> hd k \<noteq> CHR ''0'')
         \<and> digits_value k \<le> 4294967294
      then Some (digits_value k) else None)"

fun insert_index :: "nat \<Rightarrow> string \<Rightarrow> 'v \<Rightarrow> (string \<times> 'v) list \<Rightarrow> (string \<times> 'v) list" where
  "insert_index n k v [] = [(k, v)]"
| "insert_index n k v (p # ps) =
     (case array_index (fst p) of
        Some m \<Rightarrow> if m < n then p # insert_index n k v ps else (k, v) # p # ps
      | None \<Rightarrow> (k, v) # p # ps)"

text \<open>
  \<^verbatim>\<open>state[name] = value\<close>. For the key \<^verbatim>\<open>__proto__\<close> the assignment reaches the accessor
  of \<^verbatim>\<open>Object.prototype\<close> and creates no own property, so \<^verbatim>\<open>JSON.stringify\<close> never writes
  that entry. Any other key that the object has keeps its place and gets the value; a new
  array index is put at its numeric place and any other new key at the end.
\<close>

definition set_property :: "string \<Rightarrow> 'v \<Rightarrow> (string \<times> 'v) list \<Rightarrow> (string \<times> 'v) list" where
  "set_property k v obj =
     (if k = ''__proto__'' then obj
      else (case array_index k of
              Some n \<Rightarrow> if map_of obj k = None then insert_index n k v obj
                        else AList.update k v obj
            | None \<Rightarrow> AList.update k v obj))"

definition savedState :: "MCPClient \<Rightarrow> (string \<times> string \<times> string) list" where
  "savedState st =
     fold (\<lambda>(name, info). set_property name (srv_id info, srv_url info)) (mcpServers st) []"

text \<open>
  Operations on the outside world run on a record of the state file and of the processes
  on which \<^verbatim>\<open>kill()\<close> has been called; an operation either throws (\<open>Inl\<close>, with a message)
  or completes. \<open>try_catch\<close> is the \<^verbatim>\<open>try { ... } catch (error) { ... }\<close> statement.
\<close>

record World =
  stateFile :: StateFile
  killCalls :: "ChildProcess list"

type_synonym 'a io = "World \<Rightarrow> (string + 'a) \<times> World"

definition skip :: "unit io" where
  "skip w = (Inr (), w)"

definition seq :: "unit io \<Rightarrow> unit io \<Rightarrow> unit io" where
  "seq a b w = (case a w of (Inl e, w') \<Rightarrow> (Inl e, w') | (Inr u, w') \<Rightarrow> b w')"

definition try_catch :: "unit io \<Rightarrow> (string \<Rightarrow> unit io) \<Rightarrow> unit io" where
  "try_catch body handler w =
     (case body w of (Inl e, w') \<Rightarrow> handler e w' | (Inr u, w') \<Rightarrow> (Inr u, w'))"

fun for_each :: "('x \<Rightarrow> unit io) \<Rightarrow> 'x list \<Rightarrow> unit io" where
  "for_each body [] w = (Inr (), w)"
| "for_each body (x # xs) w =
     (case body x w of (Inl e, w') \<Rightarrow> (Inl e, w') | (Inr u, w') \<Rightarrow> for_each body xs w')"

text \<open>
  \<^verbatim>\<open>writeFileSync\<close> opens the file for writing, which truncates it, and then writes. It
  either completes, or throws because the file could not be opened, which leaves the file as
  it was (a file that did not exist still does not), or throws after the open, which
  leaves a file that is empty or holds a part of the text; neither parses as JSON. The
  environment tells which of the three happens. \<^verbatim>\<open>kill()\<close> is recorded, and may throw.
\<close>

datatype WriteOutcome = Written | OpenFailed | Torn

definition writeFileSync ::
  "WriteOutcome \<Rightarrow> (string \<times> string \<times> string) list \<Rightarrow> unit io"
where
  "writeFileSync outcome content w =
     (case outcome of
        Written \<Rightarrow> (Inr (), w\<lparr>stateFile := Stored content\<rparr>)
      | OpenFailed \<Rightarrow> (Inl ''open failed'', w)
      | Torn \<Rightarrow> (Inl ''write failed'', w\<lparr>stateFile := Unreadable\<rparr>))"

definition existsSync :: "World \<Rightarrow> bool" where
  "existsSync w = (stateFile w \<noteq> Missing)"

definition kill :: "(ChildProcess \<Rightarrow> bool) \<Rightarrow> ChildProcess \<Rightarrow> unit io" where
  "kill throws p w =
     ((if throws p then Inl ''kill failed'' else Inr ()), w\<lparr>killCalls := killCalls w @ [p]\<rparr>)"

definition saveServerState :: "MCPClient \<Rightarrow> WriteOutcome \<Rightarrow> unit io" where
  "saveServerState st outcome =
     try_catch (writeFileSync outcome (savedState st)) (\<lambda>error. skip)"

definition loadEntry :: "string \<times> string \<times> string \<Rightarrow> MCPClient \<Rightarrow> MCPClient" where
  "loadEntry entry st =
     (case entry of (name, ident, url) \<Rightarrow>
        if map_of (mcpServers st) name \<noteq> None then st
        else st\<lparr>mcpServers :=
                  AList.update name \<lparr>srv_id = ident, srv_url = url, srv_process = None\<rparr>
                    (mcpServers st),
                clients := AList.update name url (clients st)\<rparr>)"


text \<open>
  \<^verbatim>\<open>startServers\<close>: nothing happens without a \<^verbatim>\<open>mcpServers\<close> section; otherwise every
  configured server is launched in turn and the state is saved.
\<close>

definition startServers ::
  "MCPClient \<Rightarrow> ((string \<times> ServerConfig) \<times> LaunchEnv) list option \<Rightarrow> WriteOutcome \<Rightarrow> World
     \<Rightarrow> MCPClient \<times> World"
where
  "startServers st config outcome w =
     (case config of
        None \<Rightarrow> (st, w)
      | Some launches \<Rightarrow>
          let st' = fold (\<lambda>(entry, env). launch entry env) launches st
          in (st', snd (saveServerState st' outcome w)))"

text \<open>
  A newly constructed client before it has started or loaded anything.
\<close>

definition newClient :: MCPClient where
  "newClient = \<lparr>clients = [], enabled = True, tools = [], mcpServers = []\<rparr>"

section \<open>Shutdown: \<^verbatim>\<open>cleanup\<close>\<close>

definition terminate :: "(ChildProcess \<Rightarrow> bool) \<Rightarrow> string \<times> MCPServerInfo \<Rightarrow> unit io" where
  "terminate throws entry =
     (case entry of (name, info) \<Rightarrow>
        (case srv_process info of
           None \<Rightarrow> skip
         | Some process \<Rightarrow> try_catch (kill throws process) (\<lambda>error. skip)))"

definition cleanup :: "MCPClient \<Rightarrow> (ChildProcess \<Rightarrow> bool) \<Rightarrow> WriteOutcome \<Rightarrow> unit io" where
  "cleanup st throws outcome =
     seq (for_each (terminate throws) (mcpServers st))
         (try_catch (\<lambda>w. if existsSync w then writeFileSync outcome [] w else skip w)
                    (\<lambda>error. skip))"

text \<open>
  The records a later \<^verbatim>\<open>loadServerState\<close> would find in the file: none when the file is
  missing or unreadable.
\<close>

definition persisted :: "World \<Rightarrow> (string \<times> string \<times> string) list" where
  "persisted w = (case stateFile w of Stored state \<Rightarrow> state | _ \<Rightarrow> [])"

definition ownedProcesses :: "MCPClient \<Rightarrow> ChildProcess list" where
  "ownedProcesses st = List.map_filter (\<lambda>(name, info). srv_process info) (mcpServers st)"

section \<open>The tool catalog: \<^verbatim>\<open>refreshTools\<close>\<close>

definition isEnabled :: "MCPClient \<Rightarrow> bool" where
  "isEnabled st = (enabled st \<and> length (mcpServers st) > 0)"

text \<open>
  A refresh asks the clients in the order of the \<^verbatim>\<open>clients\<close> map, one request after the
  other, and appends what each server lists under the server's name; the model runs it on
  the clients present when it starts. A request that throws, or a response without a tool
  list, is caught and skipped.
\<close>

definition namespaced :: "string \<Rightarrow> MCPTool \<Rightarrow> MCPTool" where
  "namespaced name tool =
     tool\<lparr>tool_name := name @ ''.'' @ tool_name tool,
          tool_description := ''['' @ name @ ''] '' @ tool_description tool\<rparr>"

definition refreshStep :: "tools_transport \<Rightarrow> string \<times> string \<Rightarrow> MCPTool list \<Rightarrow> MCPTool list" where
  "refreshStep get entry allTools =
     (case entry of (name, client) \<Rightarrow>
        (case get client of
           None \<Rightarrow> allTools
         | Some serverTools \<Rightarrow> allTools @ map (namespaced name) serverTools))"

definition refreshTools :: "MCPClient \<Rightarrow> tools_transport \<Rightarrow> MCPTool list \<times> MCPClient" where
  "refreshTools st get =
     (if \<not> enabled st \<or> length (mcpServers st) = 0 then ([], st)
      else
        let allTools = fold (refreshStep get) (clients st) []
        in (allTools, st\<lparr>tools := allTools\<rparr>))"

definition getTools :: "MCPClient \<Rightarrow> MCPTool list" where
  "getTools st = tools st"

definition hasTool :: "MCPClient \<Rightarrow> string \<Rightarrow> bool" where
  "hasTool st name = list_ex (\<lambda>tool. tool_name tool = name) (tools st)"

definition getTool :: "MCPClient \<Rightarrow> string \<Rightarrow> MCPTool option" where
  "getTool st name = find (\<lambda>tool. tool_name tool = name) (tools st)"

text \<open>
  What a server contributes to a refresh, and the number of descriptors it reported.
\<close>

definition contribution :: "tools_transport \<Rightarrow> string \<times> string \<Rightarrow> MCPTool list" where
  "contribution get entry = refreshStep get entry []"

definition reported :: "tools_transport \<Rightarrow> string \<times> string \<Rightarrow> nat" where
  "reported get entry = (case get (snd entry) of None \<Rightarrow> 0 | Some serverTools \<Rightarrow> length serverTools)"

text \<open>
  Every registered server has a client for its own URL: this holds of a new client and is
  kept by \<^const>\<open>launch\<close>, \<^const>\<open>loadEntry\<close> and \<^const>\<open>onExit\<close>.
\<close>

definition clients_cover :: "MCPClient \<Rightarrow> bool" where
  "clients_cover st =
     list_all (\<lambda>name. map_of (clients st) name = map_option srv_url (map_of (mcpServers st) name))
       (map fst (mcpServers st))"

section \<open>Concrete clients and transports\<close>

text \<open>
  Small registries and servers on which the theorems below are instantiated.
\<close>

definition serverA :: MCPServerInfo where
  "serverA = \<lparr>srv_id = ''u1'', srv_url = ''http://localhost:8500'', srv_process = Some 1\<rparr>"

definition serverB :: MCPServerInfo where
  "serverB = \<lparr>srv_id = ''u2'', srv_url = ''http://localhost:8600'', srv_process = Some 2\<rparr>"

definition oneServer :: MCPClient where
  "oneServer = \<lparr>clients = [(''A'', ''http://localhost:8500'')], enabled = True, tools = [],
                 mcpServers = [(''A'', serverA)]\<rparr>"

definition twoServers :: MCPClient where
  "twoServers = \<lparr>clients = [(''A'', ''http://localhost:8500''), (''B'', ''http://localhost:8600'')],
                  enabled = True, tools = [],
                  mcpServers = [(''A'', serverA), (''B'', serverB)]\<rparr>"

text \<open>
  A server that answers every call with the call's own id and the tool name it received,
  and one that answers every call with the id \<open>2\<close>.
\<close>

definition echo :: execute_transport where
  "echo client body = Inr \<lparr>res_id = call_id body, res_result = call_name body, res_error = None\<rparr>"

definition otherId :: execute_transport where
  "otherId client body = Inr \<lparr>res_id = ''2'', res_result = ''ok'', res_error = None\<rparr>"

definition request :: "string \<Rightarrow> MCPToolCall" where
  "request n = \<lparr>call_id = ''1'', call_name = n, call_arguments = ''{}''\<rparr>"

text \<open>
  Three configured servers with the values their launches draw. The draws \<open>1/2\<close>,
  \<open>513/1024\<close> and \<open>0.6\<close> of \<^verbatim>\<open>Math.random()\<close> have the double products \<open>500\<close>,
  \<open>500.9765625\<close> and \<open>600\<close>: the first two draws differ and give the same port.
\<close>

definition launchA :: "(string \<times> ServerConfig) \<times> LaunchEnv" where
  "launchA = ((''A'', \<lparr>cfg_command = ''server'', cfg_args = []\<rparr>),
              \<lparr>env_random1000 = 500, env_uuid = ''u1'', env_spawn = (\<lambda>command arguments. Some 1)\<rparr>)"

definition launchB :: "(string \<times> ServerConfig) \<times> LaunchEnv" where
  "launchB = ((''B'', \<lparr>cfg_command = ''server'', cfg_args = []\<rparr>),
              \<lparr>env_random1000 = 64125 / 128, env_uuid = ''u2'', env_spawn = (\<lambda>command arguments. Some 2)\<rparr>)"

definition launchC :: "(string \<times> ServerConfig) \<times> LaunchEnv" where
  "launchC = ((''C'', \<lparr>cfg_command = ''server'', cfg_args = []\<rparr>),
              \<lparr>env_random1000 = 600, env_uuid = ''u3'', env_spawn = (\<lambda>command arguments. Some 3)\<rparr>)"

text \<open>
  A tool \<open>x\<close> and a tool \<open>b.c\<close>; a listing transport on which both example servers
  report \<open>x\<close>, and one on which only the second server answers.
\<close>

definition toolX :: MCPTool where
  "toolX = \<lparr>tool_name = ''x'', tool_description = ''does x'',
             tool_parameters = \<lparr>param_type = ''object'', param_properties = [],
                                 param_required = None\<rparr>\<rparr>"

definition toolBC :: MCPTool where
  "toolBC = \<lparr>tool_name = ''b.c'', tool_description = ''does b.c'',
              tool_parameters = \<lparr>param_type = ''object'', param_properties = [],
                                  param_required = None\<rparr>\<rparr>"

definition listing :: tools_transport where
  "listing client =
     (if client = ''http://localhost:8500'' \<or> client = ''http://localhost:8600''
      then Some [toolX] else None)"

definition onlyB :: tools_transport where
  "onlyB client = (if client = ''http://localhost:8600'' then Some [toolX] else None)"


definition numberedServers :: MCPClient where
  "numberedServers =
     \<lparr>clients = [(''b'', ''http://localhost:8500''), (''10'', ''http://localhost:8500''),
                 (''9'', ''http://localhost:8500'')],
      enabled = True, tools = [],
      mcpServers = [(''b'', serverA), (''10'', serverA), (''9'', serverA)]\<rparr>"

definition emptyWorld :: World where
  "emptyWorld = \<lparr>stateFile = Missing, killCalls = []\<rparr>"



section \<open>Properties of the name parse\<close>

lemma split_sep_nonempty: "split_sep c s \<noteq> []"
  by (induction s) (auto split: list.splits)

lemma hd_split_sep: "hd (split_sep c s) = takeWhile (\<lambda>x. x \<noteq> c) s"
  using split_sep_nonempty [of c]
  by (induction s) (auto split: list.splits)

lemma split_sep_no_sep: "c \<notin> set s \<Longrightarrow> split_sep c s = [s]"
  by (induction s) auto

lemma split_sep_append:
  "c \<notin> set s \<Longrightarrow> split_sep c (s @ c # r) = s # split_sep c r"
  by (induction s) auto

lemma parse_shape:
  assumes "spec_parse n = Some (s, r)"
  shows "n = s @ CHR ''.'' # r \<and> CHR ''.'' \<notin> set s"
proof -
  from assms have dot: "CHR ''.'' \<in> set n"
    and s: "s = takeWhile (\<lambda>c. c \<noteq> CHR ''.'') n"
    and r: "r = tl (dropWhile (\<lambda>c. c \<noteq> CHR ''.'') n)"
    by (auto simp: spec_parse_def split: if_splits)
  have ne: "dropWhile (\<lambda>c. c \<noteq> CHR ''.'') n \<noteq> []"
    using dot by simp
  have "hd (dropWhile (\<lambda>c. c \<noteq> CHR ''.'') n) = CHR ''.''"
    using hd_dropWhile [OF ne] by simp
  with ne have dw: "dropWhile (\<lambda>c. c \<noteq> CHR ''.'') n = CHR ''.'' # r"
    unfolding r by (cases "dropWhile (\<lambda>c. c \<noteq> CHR ''.'') n") auto
  have "n = s @ CHR ''.'' # r"
    using takeWhile_dropWhile_id [of "\<lambda>c. c \<noteq> CHR ''.''" n] dw s by simp
  moreover have "CHR ''.'' \<notin> set s"
    unfolding s by (auto dest: set_takeWhileD)
  ultimately show ?thesis by simp
qed

lemma js_split_parse:
  assumes "spec_parse n = Some (s, r)"
  shows "js_split CHR ''.'' 2 n = [s, takeWhile (\<lambda>c. c \<noteq> CHR ''.'') r]"
proof -
  from parse_shape [OF assms] have n: "n = s @ CHR ''.'' # r" and nos: "CHR ''.'' \<notin> set s"
    by simp_all
  have "split_sep CHR ''.'' n = s # split_sep CHR ''.'' r"
    unfolding n using nos by (rule split_sep_append)
  moreover obtain p ps where ps: "split_sep CHR ''.'' r = p # ps"
    using split_sep_nonempty [of "CHR ''.''" r] by (cases "split_sep CHR ''.'' r") auto
  moreover have "p = takeWhile (\<lambda>c. c \<noteq> CHR ''.'') r"
    using hd_split_sep [of "CHR ''.''" r] ps by simp
  ultimately show ?thesis by (simp add: js_split_def)
qed

lemma malformed_rejected:
  assumes "spec_malformed n"
  shows "falsy (element (js_split CHR ''.'' 2 n) 0) \<or> falsy (element (js_split CHR ''.'' 2 n) 1)"
proof (cases "spec_parse n")
  case None
  then have "CHR ''.'' \<notin> set n"
    by (simp add: spec_parse_def split: if_splits)
  then show ?thesis
    by (simp add: js_split_def split_sep_no_sep element_def falsy_def)
next
  case (Some p)
  obtain s r where p: "p = (s, r)" by (cases p)
  from assms Some p have "s = [] \<or> r = []"
    by (simp add: spec_malformed_def)
  then show ?thesis
    using js_split_parse [of n s r] Some p
    by (auto simp: element_def falsy_def)
qed

lemma forwarded_local_name:
  assumes "enabled st" and "mcpServers st \<noteq> []"
    and "spec_parse (call_name toolCall) = Some (s, r)"
    and "s \<noteq> []" and "takeWhile (\<lambda>c. c \<noteq> CHR ''.'') r \<noteq> []"
    and "map_of (clients st) s = Some client"
  shows "snd (executeToolCall st post toolCall) =
           [(client, \<lparr>call_id = call_id toolCall,
                      call_name = takeWhile (\<lambda>c. c \<noteq> CHR ''.'') r,
                      call_arguments = call_arguments toolCall\<rparr>)]"
  using assms
  by (simp add: executeToolCall_def js_split_parse Let_def element_def falsy_def
      split: sum.splits)

lemma message_differs: "disabled_message \<noteq> invalid_name_message n"
  by (simp add: disabled_message_def invalid_name_message_def)

lemma noSeparator_malformed: "spec_malformed ''noSeparator''"
  by (simp add: spec_malformed_def spec_parse_def)

lemma split_A_x: "js_split CHR ''.'' 2 ''A.x'' = [''A'', ''x'']"
  by (simp add: js_split_def)

section \<open>Invocation routing\<close>

text \<open>
  Claim C10. Whenever the client is disabled or the registry is empty, that is, whenever
  \<^const>\<open>isEnabled\<close> is false, \<^const>\<open>executeToolCall\<close> returns, for every request, the failure whose error text is
  \<open>MCP client is disabled or no servers are running\<close>, and posts nothing. This includes
  requests with a malformed name: the check of the registry comes before the check of the
  name, so the invalid-name failure is never returned in that state.
\<close>

theorem disabled_or_empty_generic_failure:
  assumes "\<not> isEnabled st"
  shows "executeToolCall st post toolCall = (failure (call_id toolCall) disabled_message, [])
         \<and> res_error (fst (executeToolCall st post toolCall))
             \<noteq> Some (invalid_name_message (call_name toolCall))"
  using assms by (auto simp: isEnabled_def executeToolCall_def failure_def message_differs)

theorem disabled_or_empty_generic_failure_witness:
  "\<not> isEnabled newClient
   \<and> executeToolCall newClient echo (request ''noSeparator'')
       = (failure ''1'' disabled_message, [])"
  using disabled_or_empty_generic_failure [of newClient echo "request ''noSeparator''"]
  by (simp add: isEnabled_def newClient_def request_def)

text \<open>
  Claim C4, as amended. For every request whose qualified name has no separator, or an empty
  server component, or an empty local component, \<^const>\<open>executeToolCall\<close> posts nothing and
  returns a failure: the invalid-name failure when the client is enabled and at least one
  server is registered, and the generic disabled-or-empty failure otherwise.
\<close>

theorem malformed_name_no_network:
  assumes "spec_malformed (call_name toolCall)"
  shows "executeToolCall st post toolCall =
           (failure (call_id toolCall)
              (if enabled st \<and> mcpServers st \<noteq> []
               then invalid_name_message (call_name toolCall) else disabled_message), [])"
  using malformed_rejected [OF assms] by (auto simp: executeToolCall_def Let_def)

theorem malformed_name_no_network_witness:
  "spec_malformed ''noSeparator''
   \<and> executeToolCall oneServer echo (request ''noSeparator'')
       = (failure ''1'' (invalid_name_message ''noSeparator''), [])"
  using malformed_name_no_network [of "request ''noSeparator''" oneServer echo]
    noSeparator_malformed
  by (simp add: oneServer_def request_def)

text \<open>
  Claim C4 as stated fails: on a client with an empty registry the malformed name
  \<open>noSeparator\<close> does not get the invalid-name failure.
\<close>

theorem malformed_name_counterexample:
  "spec_malformed ''noSeparator''
   \<and> fst (executeToolCall newClient echo (request ''noSeparator''))
       \<noteq> failure ''1'' (invalid_name_message ''noSeparator'')"
  by (simp add: noSeparator_malformed executeToolCall_def newClient_def request_def
      failure_def message_differs)

text \<open>
  Claim C2, as amended. For every invocation that is forwarded and receives a successful
  response, \<^const>\<open>executeToolCall\<close> returns the body of the response as it is, with the id
  the server put there, whether or not that id equals the id of the request.
\<close>

theorem response_returned_verbatim:
  assumes "enabled st" and "mcpServers st \<noteq> []"
    and "js_split CHR ''.'' 2 (call_name toolCall) = [s, t]" and "s \<noteq> []" and "t \<noteq> []"
    and "map_of (clients st) s = Some client"
    and "post client \<lparr>call_id = call_id toolCall, call_name = t,
                      call_arguments = call_arguments toolCall\<rparr> = Inr data"
  shows "fst (executeToolCall st post toolCall) = data"
  using assms by (simp add: executeToolCall_def Let_def element_def falsy_def)

theorem response_returned_verbatim_witness:
  "fst (executeToolCall oneServer otherId (request ''A.x''))
     = \<lparr>res_id = ''2'', res_result = ''ok'', res_error = None\<rparr>"
  using response_returned_verbatim [of oneServer "request ''A.x''" "''A''" "''x''"
      "''http://localhost:8500''" otherId
      "\<lparr>res_id = ''2'', res_result = ''ok'', res_error = None\<rparr>"]
  by (simp add: oneServer_def request_def otherId_def split_A_x)

text \<open>
  Claim C2 as stated fails: a response whose id differs from the id of the request comes
  back with no error at all.
\<close>

theorem id_mismatch_counterexample:
  "res_id (fst (executeToolCall oneServer otherId (request ''A.x''))) \<noteq> call_id (request ''A.x'')
   \<and> res_error (fst (executeToolCall oneServer otherId (request ''A.x''))) = None"
  by (simp add: executeToolCall_def oneServer_def request_def otherId_def split_A_x
      element_def falsy_def)

text \<open>
  Claim C1 says that the local name forwarded to the server is everything after the first
  separator, so that \<open>A.b.c\<close> forwards \<open>b.c\<close>. The code forwards \<open>b\<close>: the limit of
  \<^verbatim>\<open>split\<close> drops what follows the second separator. The catalog itself lists the tool
  \<open>b.c\<close> of server \<open>A\<close> under the name \<open>A.b.c\<close>.
\<close>

theorem first_separator_divergence:
  "spec_parse ''A.b.c'' = Some (''A'', ''b.c'')
   \<and> map tool_name (fst (refreshTools oneServer (\<lambda>client. Some [toolBC]))) = [''A.b.c'']
   \<and> snd (executeToolCall oneServer echo (request ''A.b.c''))
       = [(''http://localhost:8500'',
           \<lparr>call_id = ''1'', call_name = ''b'', call_arguments = ''{}''\<rparr>)]"
  by (simp add: spec_parse_def executeToolCall_def oneServer_def request_def echo_def
      js_split_def element_def falsy_def refreshTools_def refreshStep_def namespaced_def
      toolBC_def serverA_def Let_def)

theorem first_separator_divergence_witness:
  "map (\<lambda>(client, body). call_name body)
       (snd (executeToolCall oneServer echo (request ''A.b.c''))) = [''b'']"
  using first_separator_divergence by simp

section \<open>Launching and exit\<close>

lemma length_toString: "0 < length (toString n)"
  by (induction n rule: toString.induct) (subst toString.simps, simp)

lemma digit_char_inj:
  assumes a: "a < 10" and b: "b < 10" and e: "digit_char a = digit_char b"
  shows "a = b"
proof -
  from e have "of_char (char_of (48 + a)) = (of_char (char_of (48 + b)) :: nat)"
    unfolding digit_char_def by (rule arg_cong)
  then have m: "(48 + a) mod 256 = (48 + b) mod 256"
    unfolding of_char_of .
  have "48 + a < 256" using a by arith
  then have ma: "(48 + a) mod 256 = 48 + a" by (rule mod_less)
  have "48 + b < 256" using b by arith
  then have mb: "(48 + b) mod 256 = 48 + b" by (rule mod_less)
  from m show ?thesis unfolding ma mb by arith
qed

lemma digit_char_eq_iff:
  "a < 10 \<Longrightarrow> b < 10 \<Longrightarrow> digit_char a = digit_char b \<longleftrightarrow> a = b"
  using digit_char_inj by blast

lemma toString_inj: "toString n = toString m \<Longrightarrow> n = m"
proof (induction n arbitrary: m rule: toString.induct)
  case (1 n)
  show ?case
  proof (cases "n < 10")
    case True
    then have n: "toString n = [digit_char n]" by (subst toString.simps) simp
    show ?thesis
    proof (cases "m < 10")
      case m: True
      then have "toString m = [digit_char m]" by (subst toString.simps) simp
      with n "1.prems" True m show ?thesis by (simp add: digit_char_eq_iff)
    next
      case m: False
      then have "toString m = toString (m div 10) @ [digit_char (m mod 10)]"
        by (subst toString.simps) simp
      with n "1.prems" length_toString [of "m div 10"] show ?thesis by simp
    qed
  next
    case False
    then have n: "toString n = toString (n div 10) @ [digit_char (n mod 10)]"
      by (subst toString.simps) simp
    show ?thesis
    proof (cases "m < 10")
      case m: True
      then have "toString m = [digit_char m]" by (subst toString.simps) simp
      with n "1.prems" length_toString [of "n div 10"] show ?thesis by simp
    next
      case m: False
      then have "toString m = toString (m div 10) @ [digit_char (m mod 10)]"
        by (subst toString.simps) simp
      with n "1.prems" have d: "toString (n div 10) = toString (m div 10)"
        and r: "digit_char (n mod 10) = digit_char (m mod 10)" by simp_all
      from "1.IH" [OF False d] have "n div 10 = m div 10" .
      moreover from r have "n mod 10 = m mod 10" by (simp add: digit_char_eq_iff)
      ultimately show ?thesis by (metis div_mult_mod_eq)
    qed
  qed
qed

lemma serverUrl_inj: "serverUrl p = serverUrl q \<Longrightarrow> p = q"
  by (simp add: serverUrl_def toString_inj)

text \<open>
  Why the double product lies in \<open>[0, 1000)\<close>. A draw is a double between 0 and the largest
  double below 1, which is \<open>1 - 2\<^sup>-\<^sup>5\<^sup>3\<close>. Rounding to the nearest double is monotone and
  returns a result at least as close to the exact value as any double, among them \<open>0\<close> and
  \<open>1000 - 2\<^sup>-\<^sup>4\<^sup>3\<close>, the largest double below 1000. Any such rounding of the exact product
  is in the range.
\<close>

lemma double_product_in_range:
  fixes rnd :: "real \<Rightarrow> real"
  assumes mono: "\<And>x y. x \<le> y \<Longrightarrow> rnd x \<le> rnd y"
    and nearest_zero: "\<And>x. \<bar>rnd x - x\<bar> \<le> \<bar>0 - x\<bar>"
    and nearest_top: "\<And>x. \<bar>rnd x - x\<bar> \<le> \<bar>(1000 - 1 / 8796093022208) - x\<bar>"
    and r: "0 \<le> r" "r \<le> 1 - 1 / 9007199254740992"
  shows "0 \<le> rnd (r * 1000) \<and> rnd (r * 1000) < 1000"
proof
  have "rnd 0 = 0" using nearest_zero [of 0] by simp
  moreover have "rnd 0 \<le> rnd (r * 1000)" using r(1) by (intro mono) simp
  ultimately show "0 \<le> rnd (r * 1000)" by simp
next
  define top :: real where "top = (1 - 1 / 9007199254740992) * 1000"
  have "r * 1000 \<le> top" unfolding top_def using r(2) by simp
  then have le: "rnd (r * 1000) \<le> rnd top" by (rule mono)
  have "\<bar>rnd top - top\<bar> \<le> \<bar>(1000 - 1 / 8796093022208) - top\<bar>" by (rule nearest_top)
  moreover have "\<bar>(1000 - 1 / 8796093022208) - top\<bar> = top - (1000 - 1 / 8796093022208)"
    unfolding top_def by simp
  ultimately have "rnd top \<le> top + (top - (1000 - 1 / 8796093022208))" by linarith
  also have "\<dots> < 1000" unfolding top_def by simp
  finally show "rnd (r * 1000) < 1000" using le by linarith
qed

lemma randomPort_range:
  assumes "0 \<le> d" and "d < 1000"
  shows "8000 \<le> randomPort d \<and> randomPort d \<le> 8999"
proof -
  define k where "k = \<lfloor>d\<rfloor>"
  have "k < 1000" unfolding k_def using assms by (simp add: floor_less_iff)
  then have "8000 \<le> 8000 + nat k \<and> 8000 + nat k \<le> 8999" by arith
  then show ?thesis unfolding randomPort_def k_def .
qed

lemma randomPort_eq_iff:
  assumes "0 \<le> d" and "0 \<le> e"
  shows "randomPort d = randomPort e \<longleftrightarrow> \<lfloor>d\<rfloor> = \<lfloor>e\<rfloor>"
proof -
  define a where "a = \<lfloor>d\<rfloor>"
  define b where "b = \<lfloor>e\<rfloor>"
  have "0 \<le> a" "0 \<le> b" unfolding a_def b_def using assms by simp_all
  then have "8000 + nat a = 8000 + nat b \<longleftrightarrow> a = b" by arith
  then show ?thesis unfolding randomPort_def a_def b_def .
qed

lemma serverUrl_eq_iff: "serverUrl p = serverUrl q \<longleftrightarrow> p = q"
  using serverUrl_inj by auto

lemma distinct_map_same_kernel:
  assumes "\<And>x y. x \<in> set xs \<Longrightarrow> y \<in> set xs \<Longrightarrow> f x = f y \<longleftrightarrow> g x = g y"
  shows "distinct (map f xs) \<longleftrightarrow> distinct (map g xs)"
  using assms
proof (induction xs)
  case Nil
  then show ?case by simp
next
  case (Cons a xs)
  have "f a \<in> f ` set xs \<longleftrightarrow> g a \<in> g ` set xs"
  proof
    assume "f a \<in> f ` set xs"
    then obtain y where y: "y \<in> set xs" "f a = f y" by auto
    then have "g a = g y" using Cons.prems [of a y] by simp
    with y show "g a \<in> g ` set xs" by auto
  next
    assume "g a \<in> g ` set xs"
    then obtain y where y: "y \<in> set xs" "g a = g y" by auto
    then have "f a = f y" using Cons.prems [of a y] by simp
    with y show "f a \<in> f ` set xs" by auto
  qed
  moreover have "distinct (map f xs) \<longleftrightarrow> distinct (map g xs)"
    by (rule Cons.IH) (simp add: Cons.prems)
  ultimately show ?case by simp
qed

lemma update_fresh: "k \<notin> fst ` set al \<Longrightarrow> AList.update k v al = al @ [(k, v)]"
  by (induction al) auto

lemma launch_thrown:
  "spawned ((name, serverConfig), env) = None \<Longrightarrow> launch (name, serverConfig) env st = st"
  by (simp add: spawned_def launch_def Let_def)

lemma launch_registered:
  assumes "spawned ((name, serverConfig), env) \<noteq> None"
    and "name \<notin> fst ` set (mcpServers st)"
  shows "mcpServers (launch (name, serverConfig) env st) =
           mcpServers st @
           [(name, \<lparr>srv_id = env_uuid env,
                     srv_url = serverUrl (randomPort (env_random1000 env)),
                     srv_process = spawned ((name, serverConfig), env)\<rparr>)]"
  using assms by (auto simp: spawned_def launch_def Let_def update_fresh)

lemma launched_registry:
  assumes "distinct (map (\<lambda>(entry, env). fst entry) launches)"
    and "\<forall>x \<in> set launches. fst (fst x) \<notin> fst ` set (mcpServers st)"
  shows "mcpServers (fold (\<lambda>(entry, env). launch entry env) launches st) =
           mcpServers st @
           map (\<lambda>((name, serverConfig), env).
                  (name, \<lparr>srv_id = env_uuid env,
                            srv_url = serverUrl (randomPort (env_random1000 env)),
                            srv_process = spawned ((name, serverConfig), env)\<rparr>))
               (launched launches)"
  using assms
proof (induction launches arbitrary: st)
  case Nil
  then show ?case by (simp add: launched_def)
next
  case (Cons a launches)
  obtain nm cfg ev where a: "a = ((nm, cfg), ev)" by (cases a) auto
  from Cons.prems(2) a have fresh: "nm \<notin> fst ` set (mcpServers st)" by auto
  have d: "distinct (map (\<lambda>(entry, env). fst entry) launches)"
    using Cons.prems(1) by simp
  have others: "fst (fst x) \<noteq> nm" if "x \<in> set launches" for x
    using Cons.prems(1) a that by (auto simp: image_iff case_prod_unfold)
  show ?case
  proof (cases "spawned ((nm, cfg), ev) = None")
    case True
    have f: "\<forall>x \<in> set launches. fst (fst x) \<notin> fst ` set (mcpServers st)"
      using Cons.prems(2) by simp
    from Cons.IH [OF d f] show ?thesis
      using True by (simp add: a launch_thrown launched_def)
  next
    case False
    note m = launch_registered [OF False fresh]
    have f: "\<forall>x \<in> set launches.
               fst (fst x) \<notin> fst ` set (mcpServers (launch (nm, cfg) ev st))"
    proof
      fix x assume in_l: "x \<in> set launches"
      from Cons.prems(2) in_l have "fst (fst x) \<notin> fst ` set (mcpServers st)" by simp
      with others [OF in_l]
      show "fst (fst x) \<notin> fst ` set (mcpServers (launch (nm, cfg) ev st))"
        by (auto simp: m)
    qed
    from Cons.IH [OF d f] show ?thesis
      using False by (simp add: a m launched_def)
  qed
qed

lemma startServers_registry:
  "distinct (map (\<lambda>(entry, env). fst entry) launches) \<Longrightarrow>
   mcpServers (fst (startServers newClient (Some launches) outcome w)) =
     map (\<lambda>((name, serverConfig), env).
            (name, \<lparr>srv_id = env_uuid env,
                      srv_url = serverUrl (randomPort (env_random1000 env)),
                      srv_process = spawned ((name, serverConfig), env)\<rparr>))
         (launched launches)"
  using launched_registry [of launches newClient]
  by (simp add: startServers_def Let_def newClient_def)

lemma toString_8500: "toString 8500 = ''8500''"
  by (simp add: toString.simps [of 8500] toString.simps [of 850] toString.simps [of 85]
      toString.simps [of 8] digit_char_def char_of_def bit_iff_odd)

lemma toString_8600: "toString 8600 = ''8600''"
  by (simp add: toString.simps [of 8600] toString.simps [of 860] toString.simps [of 86]
      toString.simps [of 8] digit_char_def char_of_def bit_iff_odd)

text \<open>
  Claim C5, as amended. The configured names are the keys of an object, so they differ from
  each other. The servers that one client launches enter its registry in launch order, each with the address \<open>http://localhost:p\<close> and a child process spawned with the
  arguments \<open>--port p\<close> appended, where \<open>p\<close> is 8000 plus the floor of the value that
  \<^verbatim>\<open>Math.random() * 1000\<close> had in its own launch. Every such port lies between 8000 and
  8999, and the addresses of the launched servers are pairwise distinct exactly when those
  floors are pairwise distinct.
\<close>

theorem launched_addresses:
  assumes "distinct (map (\<lambda>(entry, env). fst entry) launches)"
    and "\<forall>(entry, env) \<in> set launches. 0 \<le> env_random1000 env \<and> env_random1000 env < 1000"
  shows "mcpServers (fst (startServers newClient (Some launches) outcome w)) =
           map (\<lambda>((name, serverConfig), env).
                  (name, \<lparr>srv_id = env_uuid env,
                            srv_url = serverUrl (randomPort (env_random1000 env)),
                            srv_process =
                              env_spawn env (cfg_command serverConfig)
                                (spawnArgs serverConfig (randomPort (env_random1000 env)))\<rparr>))
               (launched launches)
       \<and> (\<forall>(entry, env) \<in> set launches.
             randomPort (env_random1000 env) = 8000 + nat \<lfloor>env_random1000 env\<rfloor>
             \<and> 8000 \<le> randomPort (env_random1000 env)
             \<and> randomPort (env_random1000 env) \<le> 8999
             \<and> serverUrl (randomPort (env_random1000 env))
                 = ''http://localhost:'' @ toString (randomPort (env_random1000 env))
             \<and> spawnArgs (snd entry) (randomPort (env_random1000 env))
                 = cfg_args (snd entry) @ [''--port'', toString (randomPort (env_random1000 env))])
       \<and> (distinct (map (\<lambda>(name, info). srv_url info)
                      (mcpServers (fst (startServers newClient (Some launches) outcome w))))
            \<longleftrightarrow> distinct (map (\<lambda>(entry, env). \<lfloor>env_random1000 env\<rfloor>) (launched launches)))"
proof (intro conjI)
  have r: "0 \<le> env_random1000 (snd x) \<and> env_random1000 (snd x) < 1000"
    if "x \<in> set launches" for x
    using assms(2) that by (cases x) auto
  note reg = startServers_registry [OF assms(1), of outcome w]
  show "mcpServers (fst (startServers newClient (Some launches) outcome w)) =
           map (\<lambda>((name, serverConfig), env).
                  (name, \<lparr>srv_id = env_uuid env,
                            srv_url = serverUrl (randomPort (env_random1000 env)),
                            srv_process =
                              env_spawn env (cfg_command serverConfig)
                                (spawnArgs serverConfig (randomPort (env_random1000 env)))\<rparr>))
               (launched launches)"
    by (simp add: reg spawned_def)
  show "\<forall>(entry, env) \<in> set launches.
             randomPort (env_random1000 env) = 8000 + nat \<lfloor>env_random1000 env\<rfloor>
             \<and> 8000 \<le> randomPort (env_random1000 env)
             \<and> randomPort (env_random1000 env) \<le> 8999
             \<and> serverUrl (randomPort (env_random1000 env))
                 = ''http://localhost:'' @ toString (randomPort (env_random1000 env))
             \<and> spawnArgs (snd entry) (randomPort (env_random1000 env))
                 = cfg_args (snd entry) @ [''--port'', toString (randomPort (env_random1000 env))]"
  proof (clarify)
    fix name serverConfig env assume "((name, serverConfig), env) \<in> set launches"
    from r [OF this]
    have "8000 \<le> randomPort (env_random1000 env) \<and> randomPort (env_random1000 env) \<le> 8999"
      using randomPort_range [of "env_random1000 env"] by simp
    then show "randomPort (env_random1000 env) = 8000 + nat \<lfloor>env_random1000 env\<rfloor>
             \<and> 8000 \<le> randomPort (env_random1000 env)
             \<and> randomPort (env_random1000 env) \<le> 8999
             \<and> serverUrl (randomPort (env_random1000 env))
                 = ''http://localhost:'' @ toString (randomPort (env_random1000 env))
             \<and> spawnArgs (snd (name, serverConfig)) (randomPort (env_random1000 env))
                 = cfg_args (snd (name, serverConfig))
                     @ [''--port'', toString (randomPort (env_random1000 env))]"
      by (simp add: randomPort_def serverUrl_def spawnArgs_def)
  qed
  have "distinct (map (\<lambda>x. serverUrl (randomPort (env_random1000 (snd x)))) (launched launches))
      \<longleftrightarrow> distinct (map (\<lambda>x. \<lfloor>env_random1000 (snd x)\<rfloor>) (launched launches))"
  proof (rule distinct_map_same_kernel)
    fix x y assume "x \<in> set (launched launches)" "y \<in> set (launched launches)"
    then have "x \<in> set launches" "y \<in> set launches" by (simp_all add: launched_def)
    then have "0 \<le> env_random1000 (snd x)" "0 \<le> env_random1000 (snd y)" using r by simp_all
    then show "serverUrl (randomPort (env_random1000 (snd x)))
                 = serverUrl (randomPort (env_random1000 (snd y)))
        \<longleftrightarrow> \<lfloor>env_random1000 (snd x)\<rfloor> = \<lfloor>env_random1000 (snd y)\<rfloor>"
      by (simp add: serverUrl_eq_iff randomPort_eq_iff)
  qed
  then show "distinct (map (\<lambda>(name, info). srv_url info)
                      (mcpServers (fst (startServers newClient (Some launches) outcome w))))
            \<longleftrightarrow> distinct (map (\<lambda>(entry, env). \<lfloor>env_random1000 env\<rfloor>) (launched launches))"
    by (simp add: reg case_prod_unfold comp_def)
qed

lemma launched_A_C: "launched [launchA, launchC] = [launchA, launchC]"
  by (simp add: launched_def spawned_def launchA_def launchC_def)

theorem launched_addresses_witness:
  "map (\<lambda>(name, info). srv_url info)
       (mcpServers (fst (startServers newClient (Some [launchA, launchC]) Written emptyWorld)))
     = [''http://localhost:8500'', ''http://localhost:8600'']
   \<and> distinct (map (\<lambda>(name, info). srv_url info)
        (mcpServers (fst (startServers newClient (Some [launchA, launchC]) Written emptyWorld))))
   \<and> randomPort 500 = 8500 \<and> randomPort 600 = 8600"
  using launched_addresses [of "[launchA, launchC]" Written emptyWorld]
  by (simp add: launched_A_C)
     (simp add: launchA_def launchC_def randomPort_def serverUrl_def toString_8500 toString_8600)

text \<open>
  Claim C5 as stated fails: two servers launched by one client, with different random
  draws, are both given the address \<open>http://localhost:8500\<close>.
\<close>

theorem launched_addresses_counterexample:
  "map (\<lambda>(name, info). srv_url info)
       (mcpServers (fst (startServers newClient (Some [launchA, launchB]) Written emptyWorld)))
     = [''http://localhost:8500'', ''http://localhost:8500'']
   \<and> map (\<lambda>(entry, env). env_random1000 env) [launchA, launchB] = [500, 64125 / 128]
   \<and> \<not> distinct (map (\<lambda>(name, info). srv_url info)
        (mcpServers (fst (startServers newClient (Some [launchA, launchB]) Written emptyWorld))))"
  by (simp add: startServers_def launch_def newClient_def launchA_def launchB_def
      randomPort_def serverUrl_def toString_8500 Let_def)

lemma exits_keep_absent:
  "map_of (mcpServers st) n = None \<Longrightarrow> map_of (mcpServers (fold onExit names st)) n = None"
  by (induction names arbitrary: st) (simp_all add: onExit_def delete_conv')

text \<open>
  Claim C3, as amended. When the child process of a server exits, the record of that server
  is removed from the registry at once: every later lookup of its name is absent, whatever
  other servers exit in between, until a new launch registers the name again; the records of
  the other servers are untouched; and when the exit leaves the registry empty, every later
  invocation returns the generic disabled-or-empty failure and posts nothing.
\<close>

theorem exit_removes_record:
  "map_of (mcpServers (fold onExit names (onExit name st))) name = None
   \<and> (\<forall>other. other \<noteq> name \<longrightarrow>
         map_of (mcpServers (onExit name st)) other = map_of (mcpServers st) other)
   \<and> (mcpServers (onExit name st) = [] \<longrightarrow>
         executeToolCall (onExit name st) post toolCall
           = (failure (call_id toolCall) disabled_message, []))
   \<and> (env_spawn env (cfg_command serverConfig)
           (spawnArgs serverConfig (randomPort (env_random1000 env))) = Some p \<longrightarrow>
         map_of (mcpServers (launch (name, serverConfig) env (onExit name st))) name
           = Some \<lparr>srv_id = env_uuid env, srv_url = serverUrl (randomPort (env_random1000 env)),
                   srv_process = Some p\<rparr>)"
proof (intro conjI allI impI)
  show "map_of (mcpServers (fold onExit names (onExit name st))) name = None"
    by (rule exits_keep_absent) (simp add: onExit_def delete_conv')
next
  fix other assume "other \<noteq> name"
  then show "map_of (mcpServers (onExit name st)) other = map_of (mcpServers st) other"
    by (simp add: onExit_def)
next
  assume "mcpServers (onExit name st) = []"
  then show "executeToolCall (onExit name st) post toolCall
           = (failure (call_id toolCall) disabled_message, [])"
    by (simp add: executeToolCall_def)
next
  assume "env_spawn env (cfg_command serverConfig)
           (spawnArgs serverConfig (randomPort (env_random1000 env))) = Some p"
  then show "map_of (mcpServers (launch (name, serverConfig) env (onExit name st))) name
           = Some \<lparr>srv_id = env_uuid env, srv_url = serverUrl (randomPort (env_random1000 env)),
                   srv_process = Some p\<rparr>"
    by (simp add: launch_def Let_def update_conv')
qed

theorem exit_removes_record_witness:
  "map_of (mcpServers (fold onExit [''B''] (onExit ''A'' twoServers))) ''A'' = None
   \<and> map_of (mcpServers (onExit ''A'' twoServers)) ''B'' = Some serverB
   \<and> executeToolCall (onExit ''A'' oneServer) echo (request ''A.x'')
       = (failure ''1'' disabled_message, [])
   \<and> map_of (mcpServers (launch (fst launchA) (snd launchA) (onExit ''A'' oneServer))) ''A''
       = Some serverA"
  using exit_removes_record [where names = "[''B'']" and name = "''A''" and st = twoServers
      and post = echo and toolCall = "request ''A.x''" and env = "snd launchA" and p = 1
      and serverConfig = "snd (fst launchA)"]
    exit_removes_record [where names = "[]" and name = "''A''" and st = oneServer
      and post = echo and toolCall = "request ''A.x''" and env = "snd launchA" and p = 1
      and serverConfig = "snd (fst launchA)"]
  by (simp add: twoServers_def oneServer_def onExit_def request_def launchA_def serverA_def
      randomPort_def serverUrl_def toString_8500)

text \<open>
  Claim C3 as stated fails. After the only server has exited, an invocation of one of its
  tools gets the generic failure, not the server-not-found failure. After one of two servers
  has exited, its record is gone but its client is still in \<^const>\<open>clients\<close>, and an
  invocation of one of its tools is posted to its address.
\<close>

theorem exit_invoke_counterexample:
  "res_error (fst (executeToolCall (onExit ''A'' oneServer) echo (request ''A.x'')))
     \<noteq> Some (not_found_message ''A'')
   \<and> map_of (mcpServers (onExit ''A'' twoServers)) ''A'' = None
   \<and> snd (executeToolCall (onExit ''A'' twoServers) echo (request ''A.x''))
       = [(''http://localhost:8500'',
           \<lparr>call_id = ''1'', call_name = ''x'', call_arguments = ''{}''\<rparr>)]"
  by (simp add: executeToolCall_def onExit_def oneServer_def twoServers_def request_def
      echo_def failure_def disabled_message_def not_found_message_def js_split_def
      element_def falsy_def)

section \<open>The tool catalog\<close>

lemma refresh_fold:
  "fold (refreshStep get) cl acc = acc @ concat (map (contribution get) cl)"
  by (induction cl arbitrary: acc)
     (auto simp: refreshStep_def contribution_def split: option.splits)

lemma refreshTools_enabled:
  "enabled st \<Longrightarrow> mcpServers st \<noteq> [] \<Longrightarrow>
   refreshTools st get =
     (concat (map (contribution get) (clients st)),
      st\<lparr>tools := concat (map (contribution get) (clients st))\<rparr>)"
  by (simp add: refreshTools_def refresh_fold Let_def)

lemma contribution_None: "get client = None \<Longrightarrow> contribution get (name, client) = []"
  by (simp add: contribution_def refreshStep_def)

lemma contribution_Some:
  "get client = Some ts \<Longrightarrow> contribution get (name, client) = map (namespaced name) ts"
  by (simp add: contribution_def refreshStep_def)

lemma concat_remove1_empty:
  "f x = [] \<Longrightarrow> concat (map f (remove1 x xs)) = concat (map f xs)"
  by (induction xs) auto

lemma length_contribution: "length (contribution get entry) = reported get entry"
  by (cases entry) (simp add: contribution_def refreshStep_def reported_def split: option.splits)

lemma length_concat_contribution:
  "length (concat (map (contribution get) cl)) = sum_list (map (reported get) cl)"
  by (induction cl) (simp_all add: length_contribution)

text \<open>
  Claim C7, as amended. For every refresh on an enabled client with at least one registered
  server: a server whose listing request fails contributes no descriptor (the result is the
  one obtained without that server), every descriptor of every responding server is
  collected, the catalog has exactly as many descriptors as the responding servers
  reported, and the result replaces the stored catalog whatever that was before. A refresh
  on a disabled client or on an empty registry returns the empty sequence.
\<close>

theorem refresh_isolates_and_replaces:
  "(enabled st \<and> mcpServers st \<noteq> [] \<longrightarrow>
      (\<forall>(name, client) \<in> set (clients st).
          (get client = None \<longrightarrow>
             fst (refreshTools (st\<lparr>clients := remove1 (name, client) (clients st)\<rparr>) get)
               = fst (refreshTools st get))
        \<and> (\<forall>serverTools. get client = Some serverTools \<longrightarrow>
             set (map (namespaced name) serverTools) \<subseteq> set (fst (refreshTools st get))))
      \<and> length (fst (refreshTools st get)) = sum_list (map (reported get) (clients st))
      \<and> getTools (snd (refreshTools st get)) = fst (refreshTools st get)
      \<and> fst (refreshTools (st\<lparr>tools := previous\<rparr>) get) = fst (refreshTools st get))
   \<and> (\<not> (enabled st \<and> mcpServers st \<noteq> []) \<longrightarrow> fst (refreshTools st get) = [])"
proof (intro conjI impI)
  assume on: "enabled st \<and> mcpServers st \<noteq> []"
  then have r: "refreshTools st get =
     (concat (map (contribution get) (clients st)),
      st\<lparr>tools := concat (map (contribution get) (clients st))\<rparr>)"
    by (simp add: refreshTools_enabled)
  show "\<forall>(name, client) \<in> set (clients st).
          (get client = None \<longrightarrow>
             fst (refreshTools (st\<lparr>clients := remove1 (name, client) (clients st)\<rparr>) get)
               = fst (refreshTools st get))
        \<and> (\<forall>serverTools. get client = Some serverTools \<longrightarrow>
             set (map (namespaced name) serverTools) \<subseteq> set (fst (refreshTools st get)))"
  proof (clarify, intro conjI impI allI)
    fix name client assume "(name, client) \<in> set (clients st)" and "get client = None"
    then show "fst (refreshTools (st\<lparr>clients := remove1 (name, client) (clients st)\<rparr>) get)
               = fst (refreshTools st get)"
      using on by (simp add: refreshTools_enabled concat_remove1_empty contribution_None)
  next
    fix name client serverTools
    assume m: "(name, client) \<in> set (clients st)" and s: "get client = Some serverTools"
    have "set (contribution get (name, client)) \<subseteq> set (concat (map (contribution get) (clients st)))"
      using m by auto
    then show "set (map (namespaced name) serverTools) \<subseteq> set (fst (refreshTools st get))"
      using s by (simp add: r contribution_Some)
  qed
  show "length (fst (refreshTools st get)) = sum_list (map (reported get) (clients st))"
    by (simp add: r length_concat_contribution)
  show "getTools (snd (refreshTools st get)) = fst (refreshTools st get)"
    by (simp add: r getTools_def)
  show "fst (refreshTools (st\<lparr>tools := previous\<rparr>) get) = fst (refreshTools st get)"
    using on by (simp add: refreshTools_enabled)
next
  assume "\<not> (enabled st \<and> mcpServers st \<noteq> [])"
  then show "fst (refreshTools st get) = []"
    by (auto simp: refreshTools_def)
qed

lemma refresh_twoServers_onlyB:
  "fst (refreshTools twoServers onlyB) = [namespaced ''B'' toolX]"
  by (simp add: refreshTools_def twoServers_def onlyB_def refreshStep_def serverA_def Let_def)

theorem refresh_isolates_and_replaces_witness:
  "fst (refreshTools twoServers onlyB) = [namespaced ''B'' toolX]
   \<and> fst (refreshTools (twoServers\<lparr>clients := [(''B'', ''http://localhost:8600'')]\<rparr>) onlyB)
       = [namespaced ''B'' toolX]
   \<and> getTools (snd (refreshTools (twoServers\<lparr>tools := [toolX]\<rparr>) onlyB))
       = [namespaced ''B'' toolX]
   \<and> fst (refreshTools newClient onlyB) = []"
  using refresh_isolates_and_replaces [of twoServers onlyB "[toolX]"]
    refresh_isolates_and_replaces [of "twoServers\<lparr>tools := [toolX]\<rparr>" onlyB "[]"]
    refresh_isolates_and_replaces [of newClient onlyB "[]"]
  by (simp add: refresh_twoServers_onlyB)
     (simp add: twoServers_def onlyB_def newClient_def)

text \<open>
  Claim C7 as stated fails for a refresh on an empty registry: after the only server has
  exited, the refresh returns the empty sequence, and the stored catalog that
  \<^const>\<open>getTools\<close> and \<^const>\<open>hasTool\<close> read still holds the descriptor of the previous
  refresh.
\<close>

theorem refresh_keeps_stale_catalog_counterexample:
  "fst (refreshTools (onExit ''A'' (snd (refreshTools oneServer listing))) listing) = []
   \<and> getTools (snd (refreshTools (onExit ''A'' (snd (refreshTools oneServer listing))) listing))
       = [namespaced ''A'' toolX]
   \<and> hasTool (snd (refreshTools (onExit ''A'' (snd (refreshTools oneServer listing))) listing))
       ''A.x''"
  by (simp add: refreshTools_def oneServer_def listing_def refreshStep_def onExit_def serverA_def
      getTools_def hasTool_def namespaced_def toolX_def Let_def)

lemma clients_cover_iff:
  "clients_cover st \<longleftrightarrow>
     (\<forall>n info. map_of (mcpServers st) n = Some info \<longrightarrow>
        map_of (clients st) n = Some (srv_url info))"
proof
  assume c: "clients_cover st"
  show "\<forall>n info. map_of (mcpServers st) n = Some info \<longrightarrow>
        map_of (clients st) n = Some (srv_url info)"
  proof (intro allI impI)
    fix n info assume m: "map_of (mcpServers st) n = Some info"
    then have "(n, info) \<in> set (mcpServers st)" by (rule map_of_SomeD)
    with c have "map_of (clients st) (fst (n, info))
        = map_option srv_url (map_of (mcpServers st) (fst (n, info)))"
      unfolding clients_cover_def list_all_iff by (simp only: set_map ball_simps)
    with m show "map_of (clients st) n = Some (srv_url info)" by simp
  qed
next
  assume r: "\<forall>n info. map_of (mcpServers st) n = Some info \<longrightarrow>
        map_of (clients st) n = Some (srv_url info)"
  show "clients_cover st"
    unfolding clients_cover_def list_all_iff
  proof
    fix n assume "n \<in> set (map fst (mcpServers st))"
    then have "map_of (mcpServers st) n \<noteq> None"
      by (simp add: map_of_eq_None_iff)
    then obtain info where "map_of (mcpServers st) n = Some info" by auto
    with r show "map_of (clients st) n = map_option srv_url (map_of (mcpServers st) n)"
      by simp
  qed
qed

lemma clients_cover_newClient: "clients_cover newClient"
  by (simp add: clients_cover_def newClient_def)

lemma clients_cover_launch: "clients_cover st \<Longrightarrow> clients_cover (launch entry env st)"
  by (cases entry)
     (auto simp: clients_cover_iff launch_def Let_def update_conv' split: option.splits)

lemma clients_cover_loadEntry: "clients_cover st \<Longrightarrow> clients_cover (loadEntry entry st)"
  by (cases entry) (auto simp: clients_cover_iff loadEntry_def update_conv')

lemma clients_cover_onExit: "clients_cover st \<Longrightarrow> clients_cover (onExit name st)"
  by (auto simp: clients_cover_iff onExit_def delete_conv' split: if_splits)

lemma registered_client:
  assumes "clients_cover st" and "map_of (mcpServers st) n = Some info"
  shows "(n, srv_url info) \<in> set (clients st)"
proof -
  from assms have "map_of (clients st) n = Some (srv_url info)"
    by (simp add: clients_cover_iff)
  then show ?thesis by (rule map_of_SomeD)
qed

lemma contribution_member:
  assumes "(n, client) \<in> set cl" and "get client = Some ts" and "t \<in> set ts"
  shows "namespaced n t \<in> set (concat (map (contribution get) cl))"
proof -
  have "namespaced n t \<in> set (contribution get (n, client))"
    using assms(2,3) by (simp add: contribution_Some)
  with assms(1) show ?thesis by auto
qed

text \<open>
  Qualified names of tools of two different servers differ whenever the names of the two
  servers contain no separator; a server name with a separator can make the qualified names
  of two tools with different local names coincide.
\<close>

lemma takeWhile_before_separator:
  "CHR ''.'' \<notin> set s \<Longrightarrow> takeWhile (\<lambda>c. c \<noteq> CHR ''.'') (s @ CHR ''.'' # t) = s"
  by (induction s) auto

lemma qualified_names_differ:
  assumes "CHR ''.'' \<notin> set a" and "CHR ''.'' \<notin> set b" and "a \<noteq> b"
  shows "tool_name (namespaced a t) \<noteq> tool_name (namespaced b u)"
proof
  assume "tool_name (namespaced a t) = tool_name (namespaced b u)"
  then have "a @ CHR ''.'' # tool_name t = b @ CHR ''.'' # tool_name u"
    by (simp add: namespaced_def)
  then have "takeWhile (\<lambda>c. c \<noteq> CHR ''.'') (a @ CHR ''.'' # tool_name t)
           = takeWhile (\<lambda>c. c \<noteq> CHR ''.'') (b @ CHR ''.'' # tool_name u)"
    by simp
  with assms(1,2) have "a = b" by (simp add: takeWhile_before_separator)
  with assms(3) show False by simp
qed

lemma qualified_names_collide:
  "tool_name (namespaced ''a'' (toolBC\<lparr>tool_name := ''b.x''\<rparr>))
     = tool_name (namespaced ''a.b'' toolX)"
  by (simp add: namespaced_def toolX_def)

lemma qualified_name_server:
  "CHR ''.'' \<notin> set a \<Longrightarrow> CHR ''.'' \<notin> set x \<Longrightarrow> s @ CHR ''.'' # t = a @ CHR ''.'' # x \<Longrightarrow> s = a"
proof (induction a arbitrary: s)
  case Nil
  then show ?case by (cases s) auto
next
  case (Cons c a)
  then show ?case by (cases s) auto
qed

lemma named_from_other_server:
  assumes "CHR ''.'' \<notin> set a" and "CHR ''.'' \<notin> set x" and "s \<noteq> a"
  shows "filter (\<lambda>d. tool_name d = a @ ''.'' @ x) (contribution get (s, client)) = []"
proof (cases "get client")
  case None
  then show ?thesis by (simp add: contribution_None)
next
  case (Some ts)
  have "tool_name (namespaced s t) \<noteq> a @ ''.'' @ x" for t
    using qualified_name_server [OF assms(1,2), of s "tool_name t"] assms(3)
    by (auto simp: namespaced_def)
  then show ?thesis by (simp add: contribution_Some [of get client ts] Some filter_empty_conv)
qed

lemma named_from_other_servers:
  assumes "CHR ''.'' \<notin> set a" and "CHR ''.'' \<notin> set x" and "a \<notin> fst ` set cl"
  shows "filter (\<lambda>d. tool_name d = a @ ''.'' @ x) (concat (map (contribution get) cl)) = []"
  using assms(3)
proof (induction cl)
  case Nil
  then show ?case by simp
next
  case (Cons e cl)
  obtain s client where e: "e = (s, client)" by (cases e)
  with Cons.prems have "s \<noteq> a" and "a \<notin> fst ` set cl" by auto
  then show ?case
    using Cons.IH named_from_other_server [OF assms(1,2), of s get client] e by simp
qed

lemma named_from_own_server:
  assumes "get client = Some ts"
  shows "length (filter (\<lambda>d. tool_name d = a @ ''.'' @ x) (contribution get (a, client)))
           = length (filter (\<lambda>t. tool_name t = x) ts)"
proof -
  have "(\<lambda>d. tool_name d = a @ ''.'' @ x) \<circ> namespaced a = (\<lambda>t. tool_name t = x)"
    by (auto simp: namespaced_def fun_eq_iff)
  then show ?thesis
    by (simp add: contribution_Some [of get client ts] assms filter_map)
qed

lemma named_in_catalog:
  assumes "CHR ''.'' \<notin> set a" and "CHR ''.'' \<notin> set x"
    and "distinct (map fst cl)" and "(a, client) \<in> set cl" and "get client = Some ts"
  shows "length (filter (\<lambda>d. tool_name d = a @ ''.'' @ x) (concat (map (contribution get) cl)))
           = length (filter (\<lambda>t. tool_name t = x) ts)"
  using assms(3,4)
proof (induction cl)
  case Nil
  then show ?case by simp
next
  case (Cons e cl)
  show ?case
  proof (cases "e = (a, client)")
    case True
    with Cons.prems(1) have "a \<notin> fst ` set cl" by simp
    then show ?thesis
      using True named_from_other_servers [OF assms(1,2), of cl get]
        named_from_own_server [of get client ts a x] assms(5)
      by simp
  next
    case False
    with Cons.prems have m: "(a, client) \<in> set cl" and d: "distinct (map fst cl)" by auto
    obtain s c where e: "e = (s, c)" by (cases e)
    from m have "a \<in> fst ` set cl" by (rule image_eqI [rotated]) simp
    with Cons.prems(1) e have "s \<noteq> a" by auto
    then show ?thesis
      using Cons.IH [OF d m] named_from_other_server [OF assms(1,2), of s get c] e by simp
  qed
qed

text \<open>
  Claim C6. For any two different registered servers \<open>A\<close> and \<open>B\<close> whose listings succeed
  and each contain a tool with the local name \<open>x\<close>, the refreshed catalog contains both
  descriptors, named \<open>A.x\<close> and \<open>B.x\<close>, with descriptions prefixed \<open>[A] \<close> and \<open>[B] \<close>;
  the two names differ; nothing is removed from the catalog (it has as many descriptors as
  the servers reported); when \<open>A\<close> and \<open>B\<close> are the only servers the catalog consists
  of exactly their namespaced descriptors; and when \<open>A\<close>, \<open>B\<close> and \<open>x\<close> contain no
  separator and each of the two servers lists \<open>x\<close> once, the whole catalog has exactly one
  descriptor named \<open>A.x\<close> and exactly one named \<open>B.x\<close>.
\<close>

theorem same_local_name_namespaced:
  assumes "enabled st" and "clients_cover st"
    and "map_of (mcpServers st) A = Some infoA" and "map_of (mcpServers st) B = Some infoB"
    and "A \<noteq> B"
    and "get (srv_url infoA) = Some toolsA" and "get (srv_url infoB) = Some toolsB"
    and "toolA \<in> set toolsA" and "tool_name toolA = x"
    and "toolB \<in> set toolsB" and "tool_name toolB = x"
  shows "namespaced A toolA \<in> set (fst (refreshTools st get))
       \<and> namespaced B toolB \<in> set (fst (refreshTools st get))
       \<and> tool_name (namespaced A toolA) = A @ ''.'' @ x
       \<and> tool_name (namespaced B toolB) = B @ ''.'' @ x
       \<and> tool_description (namespaced A toolA) = ''['' @ A @ ''] '' @ tool_description toolA
       \<and> tool_description (namespaced B toolB) = ''['' @ B @ ''] '' @ tool_description toolB
       \<and> tool_name (namespaced A toolA) \<noteq> tool_name (namespaced B toolB)
       \<and> length (fst (refreshTools st get)) = sum_list (map (reported get) (clients st))
       \<and> (clients st = [(A, srv_url infoA), (B, srv_url infoB)] \<longrightarrow>
            fst (refreshTools st get) = map (namespaced A) toolsA @ map (namespaced B) toolsB)
       \<and> (CHR ''.'' \<notin> set A \<and> CHR ''.'' \<notin> set B \<and> CHR ''.'' \<notin> set x
            \<and> distinct (map fst (clients st))
            \<and> length (filter (\<lambda>t. tool_name t = x) toolsA) = 1
            \<and> length (filter (\<lambda>t. tool_name t = x) toolsB) = 1 \<longrightarrow>
            length (filter (\<lambda>d. tool_name d = A @ ''.'' @ x) (fst (refreshTools st get))) = 1
            \<and> length (filter (\<lambda>d. tool_name d = B @ ''.'' @ x) (fst (refreshTools st get))) = 1)
       \<and> getTools (snd (refreshTools st get)) = fst (refreshTools st get)"
proof -
  from assms(3) have ne: "mcpServers st \<noteq> []" by auto
  note r = refreshTools_enabled [OF assms(1) ne, of get]
  have a: "(A, srv_url infoA) \<in> set (clients st)"
    using assms(2,3) by (rule registered_client)
  have b: "(B, srv_url infoB) \<in> set (clients st)"
    using assms(2,4) by (rule registered_client)
  have 1: "namespaced A toolA \<in> set (fst (refreshTools st get))"
    using contribution_member [of A "srv_url infoA" "clients st" get toolsA toolA] a assms(6,8)
    by (simp add: r)
  have 2: "namespaced B toolB \<in> set (fst (refreshTools st get))"
    using contribution_member [of B "srv_url infoB" "clients st" get toolsB toolB] b assms(7,10)
    by (simp add: r)
  have 3: "tool_name (namespaced A toolA) \<noteq> tool_name (namespaced B toolB)"
    using assms(5,9,11) by (simp add: namespaced_def)
  have 4: "clients st = [(A, srv_url infoA), (B, srv_url infoB)] \<longrightarrow>
            fst (refreshTools st get) = map (namespaced A) toolsA @ map (namespaced B) toolsB"
    using assms(6,7) by (simp add: r contribution_Some)
  have 5: "CHR ''.'' \<notin> set A \<and> CHR ''.'' \<notin> set B \<and> CHR ''.'' \<notin> set x
            \<and> distinct (map fst (clients st))
            \<and> length (filter (\<lambda>t. tool_name t = x) toolsA) = 1
            \<and> length (filter (\<lambda>t. tool_name t = x) toolsB) = 1 \<longrightarrow>
            length (filter (\<lambda>d. tool_name d = A @ ''.'' @ x) (fst (refreshTools st get))) = 1
            \<and> length (filter (\<lambda>d. tool_name d = B @ ''.'' @ x) (fst (refreshTools st get))) = 1"
    using named_in_catalog [of A x "clients st" "srv_url infoA" get toolsA] a assms(6)
      named_in_catalog [of B x "clients st" "srv_url infoB" get toolsB] b assms(7)
    by (simp add: r)
  have 6: "tool_name (namespaced A toolA) = A @ ''.'' @ x
       \<and> tool_name (namespaced B toolB) = B @ ''.'' @ x
       \<and> tool_description (namespaced A toolA) = ''['' @ A @ ''] '' @ tool_description toolA
       \<and> tool_description (namespaced B toolB) = ''['' @ B @ ''] '' @ tool_description toolB"
    using assms(9,11) by (simp add: namespaced_def)
  have 7: "length (fst (refreshTools st get)) = sum_list (map (reported get) (clients st))
       \<and> getTools (snd (refreshTools st get)) = fst (refreshTools st get)"
    by (simp add: r length_concat_contribution getTools_def)
  from 1 2 3 4 5 6 7 show ?thesis by blast
qed

lemma cover_two: "clients_cover twoServers"
  by (simp add: clients_cover_def twoServers_def serverA_def serverB_def)

theorem same_local_name_namespaced_witness:
  "fst (refreshTools twoServers listing) = [namespaced ''A'' toolX, namespaced ''B'' toolX]
   \<and> tool_name (namespaced ''A'' toolX) = ''A.x''
   \<and> tool_name (namespaced ''B'' toolX) = ''B.x''
   \<and> tool_description (namespaced ''A'' toolX) = ''[A] does x''
   \<and> tool_description (namespaced ''B'' toolX) = ''[B] does x''
   \<and> getTool (snd (refreshTools twoServers listing)) ''B.x'' = Some (namespaced ''B'' toolX)
   \<and> length (filter (\<lambda>d. tool_name d = ''A.x'') (fst (refreshTools twoServers listing))) = 1
   \<and> length (filter (\<lambda>d. tool_name d = ''B.x'') (fst (refreshTools twoServers listing))) = 1"
  using same_local_name_namespaced [of twoServers "''A''" serverA "''B''" serverB listing
      "[toolX]" "[toolX]" toolX "''x''" toolX] cover_two
  by (simp add: twoServers_def serverA_def serverB_def listing_def toolX_def getTools_def
      getTool_def namespaced_def)

section \<open>Persistence and shutdown\<close>

text \<open>
  The keys of a JavaScript \<^verbatim>\<open>Map\<close> are different from each other. For the registry this
  holds of a new client and is kept by \<^const>\<open>launch\<close>, \<^const>\<open>loadEntry\<close> and
  \<^const>\<open>onExit\<close>.
\<close>

lemma distinct_registry_newClient: "distinct (map fst (mcpServers newClient))"
  by (simp add: newClient_def)

lemma distinct_registry_launch:
  "distinct (map fst (mcpServers st)) \<Longrightarrow> distinct (map fst (mcpServers (launch entry env st)))"
  by (cases entry) (simp add: launch_def Let_def distinct_update split: option.splits)

lemma distinct_registry_loadEntry:
  "distinct (map fst (mcpServers st)) \<Longrightarrow> distinct (map fst (mcpServers (loadEntry entry st)))"
  by (cases entry) (simp add: loadEntry_def distinct_update)

lemma distinct_registry_onExit:
  "distinct (map fst (mcpServers st)) \<Longrightarrow> distinct (map fst (mcpServers (onExit name st)))"
  by (simp add: onExit_def distinct_delete)












lemma saved_two:
  "savedState twoServers = [(''A'', ''u1'', ''http://localhost:8500''),
                            (''B'', ''u2'', ''http://localhost:8600'')]"
  by (simp add: savedState_def twoServers_def set_property_def array_index_def is_digit_def
      serverA_def serverB_def)

text \<open>
  The saved object lists array indices first and in numeric order, whatever the order of
  the registry.
\<close>

lemma saved_numbered:
  "map fst (savedState numberedServers) = [''9'', ''10'', ''b'']"
  by (simp add: savedState_def numberedServers_def set_property_def array_index_def
      is_digit_def digits_value_def)




lemma terminate_result:
  "terminate throws entry w =
     (Inr (), w\<lparr>killCalls := killCalls w @ (case srv_process (snd entry) of None \<Rightarrow> [] | Some p \<Rightarrow> [p])\<rparr>)"
  by (cases entry) (simp add: terminate_def skip_def try_catch_def kill_def split: option.splits)

lemma for_each_terminate:
  "for_each (terminate throws) xs w =
     (Inr (), w\<lparr>killCalls := killCalls w @ List.map_filter (\<lambda>(name, info). srv_process info) xs\<rparr>)"
proof (induction xs arbitrary: w)
  case Nil
  then show ?case by (simp add: map_filter_simps)
next
  case (Cons a xs)
  then show ?case
    by (cases a) (simp add: terminate_result map_filter_simps split: option.splits)
qed

lemma cleanup_result:
  "cleanup st throws outcome w =
     (Inr (),
      \<lparr>stateFile =
         (if stateFile w = Missing then Missing
          else (case outcome of
                  Written \<Rightarrow> Stored []
                | OpenFailed \<Rightarrow> stateFile w
                | Torn \<Rightarrow> Unreadable)),
       killCalls = killCalls w @ ownedProcesses st\<rparr>)"
  by (simp add: cleanup_def seq_def for_each_terminate try_catch_def existsSync_def
      writeFileSync_def skip_def ownedProcesses_def split: WriteOutcome.splits)

text \<open>
  Claim C9, as amended. \<^const>\<open>cleanup\<close> never throws, neither on a first call nor on a
  second call that follows it, and it calls \<^verbatim>\<open>kill()\<close> on every owned process of the
  registry, whichever of those calls throw. A state file that does not exist is not
  created. An existing state file is replaced by the empty record set when the write
  succeeds, is left as it was when it cannot be opened for writing, and is left unparsable
  when the write fails after the open. So unless the file could not be opened for writing,
  the persisted state is the empty record set after the first call, and it is still empty
  after the second call, whatever happens to the second write.
\<close>

theorem cleanup_twice:
  "fst (cleanup st throws outcome w) = Inr ()
   \<and> fst (cleanup st' throws' outcome' (snd (cleanup st throws outcome w))) = Inr ()
   \<and> killCalls (snd (cleanup st throws outcome w)) = killCalls w @ ownedProcesses st
   \<and> killCalls (snd (cleanup st' throws' outcome' (snd (cleanup st throws outcome w))))
       = killCalls w @ ownedProcesses st @ ownedProcesses st'
   \<and> stateFile (snd (cleanup st throws outcome w)) =
       (if stateFile w = Missing then Missing
        else (case outcome of
                Written \<Rightarrow> Stored []
              | OpenFailed \<Rightarrow> stateFile w
              | Torn \<Rightarrow> Unreadable))
   \<and> (outcome \<noteq> OpenFailed \<longrightarrow>
        persisted (snd (cleanup st throws outcome w)) = []
        \<and> persisted (snd (cleanup st' throws' outcome' (snd (cleanup st throws outcome w)))) = [])"
  by (cases outcome; cases outcome')
     (simp_all add: cleanup_result persisted_def split: StateFile.splits)

theorem cleanup_twice_witness:
  "fst (cleanup twoServers (\<lambda>p. p = 1) Written (snd (cleanup twoServers (\<lambda>p. p = 1) Written
          \<lparr>stateFile = Stored (savedState twoServers), killCalls = []\<rparr>))) = Inr ()
   \<and> killCalls (snd (cleanup twoServers (\<lambda>p. p = 1) Written
          \<lparr>stateFile = Stored (savedState twoServers), killCalls = []\<rparr>)) = [1, 2]
   \<and> stateFile (snd (cleanup twoServers (\<lambda>p. p = 1) Written
          \<lparr>stateFile = Stored (savedState twoServers), killCalls = []\<rparr>)) = Stored []
   \<and> stateFile (snd (cleanup twoServers (\<lambda>p. p = 1) Written emptyWorld)) = Missing
   \<and> persisted (snd (cleanup twoServers (\<lambda>p. p = 1) Torn
          \<lparr>stateFile = Stored (savedState twoServers), killCalls = []\<rparr>)) = []"
  using cleanup_twice [of twoServers "\<lambda>p. p = 1" Written
      "\<lparr>stateFile = Stored (savedState twoServers), killCalls = []\<rparr>" twoServers "\<lambda>p. p = 1" Written]
    cleanup_twice [of twoServers "\<lambda>p. p = 1" Written emptyWorld twoServers "\<lambda>p. p = 1" Written]
    cleanup_twice [of twoServers "\<lambda>p. p = 1" Torn
      "\<lparr>stateFile = Stored (savedState twoServers), killCalls = []\<rparr>" twoServers "\<lambda>p. p = 1" Written]
  by (simp add: ownedProcesses_def twoServers_def serverA_def serverB_def map_filter_simps
      emptyWorld_def)

text \<open>
  Claim C9 as stated fails when the state file cannot be opened for writing:
  \<^const>\<open>cleanup\<close> ignores the error, and the persisted state still holds the records of both
  servers.
\<close>

theorem cleanup_failed_write_counterexample:
  "fst (cleanup twoServers (\<lambda>p. False) OpenFailed
          \<lparr>stateFile = Stored (savedState twoServers), killCalls = []\<rparr>) = Inr ()
   \<and> persisted (snd (cleanup twoServers (\<lambda>p. False) OpenFailed
          \<lparr>stateFile = Stored (savedState twoServers), killCalls = []\<rparr>))
       = [(''A'', ''u1'', ''http://localhost:8500''), (''B'', ''u2'', ''http://localhost:8600'')]"
  by (simp add: cleanup_result persisted_def saved_two)

end
